theory Spec2Isabelle
  imports Complex_Main "HOL-Library.Sublist"
begin

section \<open>Values, errors and tables\<close>

text \<open>
  The two scripts \<^verbatim>\<open>abc.py\<close> and \<^verbatim>\<open>import gzip.py\<close> work on the values that
  \<^verbatim>\<open>json.loads\<close> produces, on \<^verbatim>\<open>datetime\<close> objects and on pandas tables.

  A Python float is represented by the rational it denotes, or by one of the three
  special values; the rounding of a double is not represented. A dict is an
  association list in insertion order, looked up with \<open>map_of\<close>. A naive
  \<^verbatim>\<open>datetime\<close> is the number of microseconds between 1970-01-01T00:00:00 and its
  wall-clock reading.
\<close>

datatype pyfloat = Finite rat | NaN | PosInf | NegInf

datatype pyval =
    PNone
  | PBool bool
  | PInt int
  | PFloat pyfloat
  | PStr string
  | PList "pyval list"
  | PDict "(string \<times> pyval) list"
  | PDatetime int

text \<open>
  The exceptions that the code can meet. \<open>JSONDecodeError\<close> and
  \<open>UnicodeDecodeError\<close> are subclasses of \<open>ValueError\<close>, which matters for the
  \<^verbatim>\<open>except ValueError\<close> of the loader. \<open>DateRangeError\<close> stands for what
  \<^verbatim>\<open>fromtimestamp\<close> raises on a value it cannot represent (OverflowError, OSError
  or ValueError, by magnitude and platform).
\<close>

datatype pyerr =
    KeyError
  | TypeError
  | ValueError
  | JSONDecodeError
  | UnicodeDecodeError
  | DateRangeError
  | AttributeError
  | OSError
  | OtherError

definition is_ValueError :: "pyerr \<Rightarrow> bool" where
  "is_ValueError e = (e = ValueError \<or> e = JSONDecodeError \<or> e = UnicodeDecodeError)"

text \<open>\<^verbatim>\<open>isinstance(value, dict) and key in value\<close>\<close>

definition dict_has :: "pyval \<Rightarrow> string \<Rightarrow> bool" where
  "dict_has value k = (case value of PDict d \<Rightarrow> map_of d k \<noteq> None | _ \<Rightarrow> False)"

text \<open>\<^verbatim>\<open>value[key]\<close>: KeyError on a missing key, TypeError on a value without items.\<close>

definition getitem :: "pyval \<Rightarrow> string \<Rightarrow> pyerr + pyval" where
  "getitem value k =
     (case value of
        PDict d \<Rightarrow> (case map_of d k of None \<Rightarrow> Inl KeyError | Some v \<Rightarrow> Inr v)
      | _ \<Rightarrow> Inl TypeError)"

text \<open>\<^verbatim>\<open>value.get(key)\<close> on a dict: None on a missing key.\<close>

definition dict_get :: "pyval \<Rightarrow> string \<Rightarrow> pyerr + pyval" where
  "dict_get value k =
     (case value of
        PDict d \<Rightarrow> (case map_of d k of None \<Rightarrow> Inr PNone | Some v \<Rightarrow> Inr v)
      | _ \<Rightarrow> Inl AttributeError)"

section \<open>Per-value conversions\<close>

text \<open>
  \<^verbatim>\<open>
  def convert_oid(value):
      if isinstance(value, dict) and '$oid' in value:
          return value['$oid']
      return value
  \<close>
\<close>

definition convert_oid :: "pyval \<Rightarrow> pyerr + pyval" where
  "convert_oid value =
     (if dict_has value ''$oid'' then getitem value ''$oid'' else Inr value)"

text \<open>
  \<^verbatim>\<open>value / 1000\<close>: true division. Integers and booleans are numbers, a float is
  divided, everything else raises TypeError.
\<close>

definition truediv_1000 :: "pyval \<Rightarrow> pyerr + pyfloat" where
  "truediv_1000 v =
     (case v of
        PInt n \<Rightarrow> Inr (Finite (of_int n / 1000))
      | PBool b \<Rightarrow> Inr (Finite ((if b then 1 else 0) / 1000))
      | PFloat (Finite r) \<Rightarrow> Inr (Finite (r / 1000))
      | PFloat x \<Rightarrow> Inr x
      | _ \<Rightarrow> Inl TypeError)"

text \<open>Rounding to the nearest integer, ties to even, as \<^verbatim>\<open>fromtimestamp\<close> rounds microseconds.\<close>

definition round_half_even :: "rat \<Rightarrow> int" where
  "round_half_even x =
     (let f = \<lfloor>x\<rfloor>; d = x - of_int f
      in if d < 1 / 2 then f
         else if 1 / 2 < d then f + 1
         else if even f then f else f + 1)"

text \<open>
  The wall-clock range of \<^verbatim>\<open>datetime\<close>: 0001-01-01T00:00:00 to
  9999-12-31T23:59:59.999999, in microseconds from 1970-01-01T00:00:00.
\<close>

definition datetime_min_us :: int where
  "datetime_min_us = - 62135596800 * 1000000"

definition datetime_max_us :: int where
  "datetime_max_us = 253402300799 * 1000000 + 999999"

text \<open>
  \<^verbatim>\<open>datetime.datetime.fromtimestamp(t)\<close> without a time zone: the naive local
  datetime of the instant \<open>t\<close> seconds after the epoch. \<open>off\<close> is the offset of
  local time from UTC in seconds, taken as constant.
\<close>

definition fromtimestamp :: "int \<Rightarrow> pyfloat \<Rightarrow> pyerr + pyval" where
  "fromtimestamp off t =
     (case t of
        Finite r \<Rightarrow>
          (let us = round_half_even (r * 1000000) + off * 1000000
           in if datetime_min_us \<le> us \<and> us \<le> datetime_max_us
              then Inr (PDatetime us) else Inl DateRangeError)
      | NaN \<Rightarrow> Inl ValueError
      | _ \<Rightarrow> Inl DateRangeError)"

text \<open>
  \<^verbatim>\<open>
  def convert_date(value):
      if isinstance(value, dict) and '$date' in value:
          return datetime.datetime.fromtimestamp(value['$date'] / 1000)
      return value
  \<close>
\<close>

definition convert_date :: "int \<Rightarrow> pyval \<Rightarrow> pyerr + pyval" where
  "convert_date off value =
     (if dict_has value ''$date'' then
        (case getitem value ''$date'' of
           Inl e \<Rightarrow> Inl e
         | Inr p \<Rightarrow>
             (case truediv_1000 p of
                Inl e \<Rightarrow> Inl e
              | Inr t \<Rightarrow> fromtimestamp off t))
      else Inr value)"

text \<open>
  \<^verbatim>\<open>
  def convert_cpg(value):
      if isinstance(value, dict) and '$id' in value and '$ref' in value:
          if isinstance(value['$id'], dict) and '$oid' in value['$id']:
              cpg_id = value['$id']['$oid']
          else:
              cpg_id = value['$id']
          cpg_ref = value.get('$ref')
          return {'cpg_id': cpg_id, 'cpg_ref': cpg_ref}
      return value
  \<close>
\<close>

definition convert_cpg :: "pyval \<Rightarrow> pyerr + pyval" where
  "convert_cpg value =
     (if dict_has value ''$id'' \<and> dict_has value ''$ref'' then
        (case getitem value ''$id'' of
           Inl e \<Rightarrow> Inl e
         | Inr i \<Rightarrow>
             (case (if dict_has i ''$oid'' then getitem i ''$oid'' else Inr i) of
                Inl e \<Rightarrow> Inl e
              | Inr cpg_id \<Rightarrow>
                  (case dict_get value ''$ref'' of
                     Inl e \<Rightarrow> Inl e
                   | Inr cpg_ref \<Rightarrow>
                       Inr (PDict [(''cpg_id'', cpg_id), (''cpg_ref'', cpg_ref)]))))
      else Inr value)"

text \<open>
  The shape \<^verbatim>\<open>{"$oid": S}\<close> with \<open>S\<close> a string: a dict whose entry \<^verbatim>\<open>$oid\<close>
  is a string.
\<close>

definition oid_shaped :: "pyval \<Rightarrow> bool" where
  "oid_shaped value =
     (case value of
        PDict d \<Rightarrow> (case map_of d ''$oid'' of Some (PStr s) \<Rightarrow> True | _ \<Rightarrow> False)
      | _ \<Rightarrow> False)"

section \<open>Strings and the base-name token\<close>

text \<open>\<^verbatim>\<open>s.split(sep)\<close> for a one-character separator: never an empty list.\<close>

fun str_split :: "char \<Rightarrow> string \<Rightarrow> string list" where
  "str_split sep [] = [[]]"
| "str_split sep (c # cs) =
     (if c = sep then [] # str_split sep cs
      else (case str_split sep cs of
              [] \<Rightarrow> [[c]]
            | w # ws \<Rightarrow> (c # w) # ws))"

text \<open>
  \<^verbatim>\<open>s.replace(old, new)\<close> for a non-empty \<open>old\<close>: every occurrence found in one
  pass from the left is replaced, and the scan goes on after the occurrence.
\<close>

function str_replace :: "string \<Rightarrow> string \<Rightarrow> string \<Rightarrow> string" where
  "str_replace old new [] = []"
| "str_replace old new (c # cs) =
     (if old \<noteq> [] \<and> prefix old (c # cs)
      then new @ str_replace old new (drop (length old) (c # cs))
      else c # str_replace old new cs)"
  by pat_completeness auto
termination
  by (relation "measure (\<lambda>(old, new, s). length s)") (auto simp: neq_Nil_conv)

text \<open>The ASCII characters that \<^verbatim>\<open>str.strip()\<close> removes.\<close>

definition is_space :: "char \<Rightarrow> bool" where
  "is_space c = (let n = (of_char c :: nat) in (9 \<le> n \<and> n \<le> 13) \<or> (28 \<le> n \<and> n \<le> 32))"

definition str_strip :: "string \<Rightarrow> string" where
  "str_strip s = rev (dropWhile is_space (rev (dropWhile is_space s)))"

text \<open>\<^verbatim>\<open>base_name = file_path.split("/")[-1].replace(".gz", "")\<close>\<close>

definition base_name :: "string \<Rightarrow> string" where
  "base_name file_path = str_replace ''.gz'' [] (last (str_split CHR ''/'' file_path))"

section \<open>Tables\<close>

text \<open>
  A DataFrame: the number of rows of its index, and its columns in order, each with its
  values in row order. The dtype inference of pandas is not represented: a cell holds
  the value it was built from.
\<close>

record dataframe =
  nrows :: nat
  cols :: "(string \<times> pyval list) list"

text \<open>
  What \<^verbatim>\<open>pd.read_json\<close> may hand back: a DataFrame, or a Series of labelled values
  (a single record).
\<close>

datatype pandas_obj = Frame dataframe | Series "(string \<times> pyval) list"

definition df_columns :: "dataframe \<Rightarrow> string list" where
  "df_columns df = map fst (cols df)"

text \<open>\<^verbatim>\<open>df[col]\<close>\<close>

definition df_getitem :: "dataframe \<Rightarrow> string \<Rightarrow> pyerr + pyval list" where
  "df_getitem df col =
     (case map_of (cols df) col of None \<Rightarrow> Inl KeyError | Some vs \<Rightarrow> Inr vs)"

text \<open>\<^verbatim>\<open>df[col] = values\<close>: an existing column keeps its place, a new one is appended.\<close>

definition df_setitem :: "dataframe \<Rightarrow> string \<Rightarrow> pyval list \<Rightarrow> dataframe" where
  "df_setitem df col vs =
     (if col \<in> set (df_columns df)
      then df\<lparr>cols := map (\<lambda>(k, old). if k = col then (k, vs) else (k, old)) (cols df)\<rparr>
      else df\<lparr>cols := cols df @ [(col, vs)]\<rparr>)"


text \<open>\<^verbatim>\<open>series.apply(f)\<close>: \<open>f\<close> on every value in row order; the first exception ends it.\<close>

fun series_apply :: "(pyval \<Rightarrow> pyerr + pyval) \<Rightarrow> pyval list \<Rightarrow> pyerr + pyval list" where
  "series_apply f [] = Inr []"
| "series_apply f (v # vs) =
     (case f v of
        Inl e \<Rightarrow> Inl e
      | Inr w \<Rightarrow> (case series_apply f vs of Inl e \<Rightarrow> Inl e | Inr ws \<Rightarrow> Inr (w # ws)))"

text \<open>
  \<^verbatim>\<open>pd.DataFrame(data)\<close> for a list of dicts: the columns are the keys in the order
  they are first seen, a row without a key has NaN there, and there is one row for
  each dict.
\<close>

definition is_record :: "pyval \<Rightarrow> bool" where
  "is_record v = (case v of PDict d \<Rightarrow> True | _ \<Rightarrow> False)"

definition keys_of :: "pyval \<Rightarrow> string list" where
  "keys_of v = (case v of PDict d \<Rightarrow> map fst d | _ \<Rightarrow> [])"

fun first_seen :: "string list \<Rightarrow> string list \<Rightarrow> string list" where
  "first_seen seen [] = seen"
| "first_seen seen (k # ks) =
     (if k \<in> set seen then first_seen seen ks else first_seen (seen @ [k]) ks)"

definition cell :: "string \<Rightarrow> pyval \<Rightarrow> pyval" where
  "cell k v =
     (case v of
        PDict d \<Rightarrow> (case map_of d k of None \<Rightarrow> PFloat NaN | Some x \<Rightarrow> x)
      | _ \<Rightarrow> PFloat NaN)"

definition frame_of_records :: "pyval list \<Rightarrow> dataframe" where
  "frame_of_records data =
     \<lparr>nrows = length data,
      cols = map (\<lambda>k. (k, map (cell k) data)) (first_seen [] (concat (map keys_of data)))\<rparr>"

text \<open>\<^verbatim>\<open>pd.DataFrame([series])\<close>: one row, a column for each label.\<close>

definition frame_of_series :: "(string \<times> pyval) list \<Rightarrow> dataframe" where
  "frame_of_series s = \<lparr>nrows = 1, cols = map (\<lambda>(k, v). (k, [v])) s\<rparr>"

section \<open>The loader\<close>

text \<open>
  The library and the file system, as far as the loader uses them:
  \<^item> \<open>pd_read_json path\<close> is \<^verbatim>\<open>pd.read_json(path, compression='gzip', lines=True)\<close>;
  \<^item> \<open>gzip_lines path\<close> is the list of lines that iterating
    \<^verbatim>\<open>gzip.open(path, 'rt', encoding='utf-8')\<close> gives, or the exception of opening or
    decompressing;
  \<^item> \<open>json_loads line\<close> is \<^verbatim>\<open>json.loads(line)\<close>;
  \<^item> \<open>pd_DataFrame_other data\<close> is \<^verbatim>\<open>pd.DataFrame(data)\<close> on a list that does not
    hold dicts only.
\<close>

record py_env =
  pd_read_json :: "string \<Rightarrow> pyerr + pandas_obj"
  gzip_lines :: "string \<Rightarrow> pyerr + string list"
  json_loads :: "string \<Rightarrow> pyerr + pyval"
  pd_DataFrame_other :: "pyval list \<Rightarrow> pyerr + dataframe"

definition pd_DataFrame :: "py_env \<Rightarrow> pyval list \<Rightarrow> pyerr + dataframe" where
  "pd_DataFrame env data =
     (if list_all is_record data then Inr (frame_of_records data)
      else pd_DataFrame_other env data)"

text \<open>
  The loop of the fallback:
  \<^verbatim>\<open>
  for line in f:
      if line.strip() and not line.startswith(base_name):
          try:
              data.append(json.loads(line))
          except json.JSONDecodeError:
              continue
  \<close>
\<close>

fun parse_lines ::
  "(string \<Rightarrow> pyerr + pyval) \<Rightarrow> string \<Rightarrow> string list \<Rightarrow> pyval list \<Rightarrow> pyerr + pyval list" where
  "parse_lines loads bn [] data = Inr data"
| "parse_lines loads bn (line # rest) data =
     (if str_strip line \<noteq> [] \<and> \<not> prefix bn line then
        (case loads line of
           Inr obj \<Rightarrow> parse_lines loads bn rest (data @ [obj])
         | Inl e \<Rightarrow>
             if e = JSONDecodeError then parse_lines loads bn rest data else Inl e)
      else parse_lines loads bn rest data)"

text \<open>
  \<^verbatim>\<open>load_gzipped_json\<close> of \<^verbatim>\<open>abc.py\<close>:
  \<^verbatim>\<open>
  try:
      df = pd.read_json(file_path, compression='gzip', lines=True)
      return df
  except ValueError as e:
      data = []
      base_name = file_path.split("/")[-1].replace(".gz", "")
      with gzip.open(file_path, 'rt', encoding='utf-8') as f:
          for line in f: ...
      return pd.DataFrame(data)
  \<close>
\<close>

definition load_gzipped_json_abc :: "py_env \<Rightarrow> string \<Rightarrow> pyerr + pandas_obj" where
  "load_gzipped_json_abc env file_path =
     (case pd_read_json env file_path of
        Inr df \<Rightarrow> Inr df
      | Inl e \<Rightarrow>
          if is_ValueError e then
            (case gzip_lines env file_path of
               Inl e' \<Rightarrow> Inl e'
             | Inr ls \<Rightarrow>
                 (case parse_lines (json_loads env) (base_name file_path) ls [] of
                    Inl e' \<Rightarrow> Inl e'
                  | Inr data \<Rightarrow>
                      (case pd_DataFrame env data of
                         Inl e' \<Rightarrow> Inl e'
                       | Inr df \<Rightarrow> Inr (Frame df))))
          else Inl e)"

text \<open>
  \<^verbatim>\<open>load_gzipped_json\<close> of \<^verbatim>\<open>import gzip.py\<close>: the same, with
  \<^verbatim>\<open>
  if isinstance(df, pd.Series):
      df = pd.DataFrame([df])
  \<close>
  before each \<^verbatim>\<open>return df\<close>.
\<close>

definition series_to_frame :: "pandas_obj \<Rightarrow> pandas_obj" where
  "series_to_frame df = (case df of Series s \<Rightarrow> Frame (frame_of_series s) | Frame d \<Rightarrow> Frame d)"

definition load_gzipped_json_gzip :: "py_env \<Rightarrow> string \<Rightarrow> pyerr + pandas_obj" where
  "load_gzipped_json_gzip env file_path =
     (case pd_read_json env file_path of
        Inr df \<Rightarrow> Inr (series_to_frame df)
      | Inl e \<Rightarrow>
          if is_ValueError e then
            (case gzip_lines env file_path of
               Inl e' \<Rightarrow> Inl e'
             | Inr ls \<Rightarrow>
                 (case parse_lines (json_loads env) (base_name file_path) ls [] of
                    Inl e' \<Rightarrow> Inl e'
                  | Inr data \<Rightarrow>
                      (case pd_DataFrame env data of
                         Inl e' \<Rightarrow> Inl e'
                       | Inr df \<Rightarrow> Inr (series_to_frame (Frame df)))))
          else Inl e)"

section \<open>The normalization pass\<close>

text \<open>
  \<^verbatim>\<open>df[col] = df[col].apply(f)\<close>. The frame is changed in place, so the result is
  the exception raised, if any, together with the frame as it is left.
\<close>

definition apply_column ::
  "(pyval \<Rightarrow> pyerr + pyval) \<Rightarrow> string \<Rightarrow> dataframe \<Rightarrow> pyerr option \<times> dataframe" where
  "apply_column f col df =
     (case df_getitem df col of
        Inl e \<Rightarrow> (Some e, df)
      | Inr vs \<Rightarrow>
          (case series_apply f vs of
             Inl e \<Rightarrow> (Some e, df)
           | Inr ws \<Rightarrow> (None, df_setitem df col ws)))"

text \<open>
  \<^verbatim>\<open>
  for col in columns:
      if col in df.columns:
          df[col] = df[col].apply(f)
  \<close>
\<close>

fun convert_columns ::
  "(pyval \<Rightarrow> pyerr + pyval) \<Rightarrow> string list \<Rightarrow> dataframe \<Rightarrow> pyerr option \<times> dataframe" where
  "convert_columns f [] df = (None, df)"
| "convert_columns f (col # rest) df =
     (if col \<in> set (df_columns df) then
        (case apply_column f col df of
           (Some e, df') \<Rightarrow> (Some e, df')
         | (None, df') \<Rightarrow> convert_columns f rest df')
      else convert_columns f rest df)"

definition oid_columns :: "string list" where
  "oid_columns = [''_id'', ''userId'', ''brand_id'']"

definition date_columns :: "string list" where
  "date_columns =
     [''createdDate'', ''lastLogin'', ''purchaseDate'', ''dateScanned'', ''finishedDate'',
      ''modifyDate'', ''pointsAwardedDate'']"

text \<open>\<^verbatim>\<open>apply_conversions\<close> of \<^verbatim>\<open>abc.py\<close>: object ids, dates, then \<^verbatim>\<open>cpg\<close>.\<close>

definition apply_conversions_abc :: "int \<Rightarrow> dataframe \<Rightarrow> pyerr option \<times> dataframe" where
  "apply_conversions_abc off df =
     (case convert_columns convert_oid oid_columns df of
        (Some e, df1) \<Rightarrow> (Some e, df1)
      | (None, df1) \<Rightarrow>
          (case convert_columns (convert_date off) date_columns df1 of
             (Some e, df2) \<Rightarrow> (Some e, df2)
           | (None, df2) \<Rightarrow>
               (if ''cpg'' \<in> set (df_columns df2)
                then apply_column convert_cpg ''cpg'' df2
                else (None, df2))))"

text \<open>\<^verbatim>\<open>apply_conversions\<close> of \<^verbatim>\<open>import gzip.py\<close>: object ids and dates only.\<close>

definition apply_conversions_gzip :: "int \<Rightarrow> dataframe \<Rightarrow> pyerr option \<times> dataframe" where
  "apply_conversions_gzip off df =
     (case convert_columns convert_oid oid_columns df of
        (Some e, df1) \<Rightarrow> (Some e, df1)
      | (None, df1) \<Rightarrow> convert_columns (convert_date off) date_columns df1)"

section \<open>Extraction of a nested column\<close>


section \<open>Calendar dates\<close>








section \<open>Predicates used in the statements\<close>


text \<open>
  What a pass over a frame leaves alone: the column names in their order, the number of
  rows, every column outside \<open>S\<close>, and the length of every column.
\<close>

definition frame_kept :: "string set \<Rightarrow> dataframe \<Rightarrow> dataframe \<Rightarrow> bool" where
  "frame_kept S df df' =
     (df_columns df' = df_columns df \<and> nrows df' = nrows df \<and>
      (\<forall>c. c \<notin> S \<longrightarrow> df_getitem df' c = df_getitem df c) \<and>
      (\<forall>c vs ws. df_getitem df c = Inr vs \<and> df_getitem df' c = Inr ws \<longrightarrow> length ws = length vs))"

text \<open>
  What one pass with the conversion \<open>f\<close> over the columns \<open>S\<close> does to a frame: it
  keeps the frame as above, and a column either stays as it is or holds what
  \<^verbatim>\<open>apply(f)\<close> returned for it.
\<close>

definition pass_rel :: "(pyval \<Rightarrow> pyerr + pyval) \<Rightarrow> string set \<Rightarrow> dataframe \<Rightarrow> dataframe \<Rightarrow> bool" where
  "pass_rel f S df df' =
     (frame_kept S df df' \<and>
      (\<forall>c. df_getitem df' c = df_getitem df c \<or>
           (\<exists>vs ws. df_getitem df c = Inr vs \<and> df_getitem df' c = Inr ws \<and>
                     series_apply f vs = Inr ws)))"

text \<open>A cell after the normalization pass: as it was, or converted by one of the three conversions.\<close>

definition cell_converted :: "int \<Rightarrow> pyval \<Rightarrow> pyval \<Rightarrow> bool" where
  "cell_converted off v w =
     (w = v \<or> convert_oid v = Inr w \<or> convert_date off v = Inr w \<or> convert_cpg v = Inr w)"

text \<open>The names that \<^verbatim>\<open>apply_conversions\<close> looks for.\<close>

definition converted_names :: "string set" where
  "converted_names = set oid_columns \<union> set date_columns \<union> {''cpg''}"

text \<open>
  The lines that the fallback hands to \<^verbatim>\<open>json.loads\<close>: not blank, and not beginning
  with the base-name token.
\<close>

definition kept_line :: "string \<Rightarrow> string \<Rightarrow> bool" where
  "kept_line bn line = (str_strip line \<noteq> [] \<and> \<not> prefix bn line)"

text \<open>
  The objects that \<^verbatim>\<open>json.loads\<close> returns for those lines, in the order of the lines.
\<close>

definition parsed_objects :: "(string \<Rightarrow> pyerr + pyval) \<Rightarrow> string \<Rightarrow> string list \<Rightarrow> pyval list" where
  "parsed_objects loads bn ls =
     concat (map (\<lambda>line. if kept_line bn line
                          then (case loads line of Inr obj \<Rightarrow> [obj] | Inl e \<Rightarrow> [])
                          else []) ls)"

text \<open>
  A world for the examples: \<^verbatim>\<open>pd.read_json\<close> fails with ValueError, the file holds
  the lines \<open>ls\<close>, \<^verbatim>\<open>json.loads\<close> accepts the line \<^verbatim>\<open>{}\<close> and nothing else, and
  \<^verbatim>\<open>pd.DataFrame\<close> rejects rows that are not dicts.
\<close>

definition sample_env :: "string list \<Rightarrow> py_env" where
  "sample_env ls =
     \<lparr>pd_read_json = (\<lambda>path. Inl ValueError),
      gzip_lines = (\<lambda>path. Inr ls),
      json_loads = (\<lambda>line. if line = ''{}'' then Inr (PDict []) else Inl JSONDecodeError),
      pd_DataFrame_other = (\<lambda>data. Inl TypeError)\<rparr>"

section \<open>The conversions\<close>



text \<open>
  Claim C1, as the code has it. A dict that contains the key \<^verbatim>\<open>$oid\<close> is converted
  to the value stored under that key, whatever that value is and whatever other keys the
  dict has; so \<^verbatim>\<open>{"$oid": S}\<close> gives exactly \<open>S\<close>, and a value of that shape gives
  a string. A value that is not a dict, or a dict without the key, is returned unchanged.
\<close>

theorem convert_oid_cases:
  "(map_of d ''$oid'' = Some p \<longrightarrow> convert_oid (PDict d) = Inr p) \<and>
   convert_oid (PDict [(''$oid'', PStr S)]) = Inr (PStr S) \<and>
   (oid_shaped v \<longrightarrow> (\<exists>S'. convert_oid v = Inr (PStr S'))) \<and>
   (\<not> dict_has v ''$oid'' \<longrightarrow> convert_oid v = Inr v)"
  by (auto simp: convert_oid_def dict_has_def getitem_def oid_shaped_def
      split: pyval.splits option.splits)

theorem convert_oid_cases_witness:
  "map_of [(''$oid'', PInt 5), (''n'', PNone)] ''$oid'' = Some (PInt 5) \<and>
   convert_oid (PDict [(''$oid'', PInt 5), (''n'', PNone)]) = Inr (PInt 5) \<and>
   oid_shaped (PDict [(''$oid'', PStr ''abc123'')]) \<and>
   convert_oid (PDict [(''$oid'', PStr ''abc123'')]) = Inr (PStr ''abc123'') \<and>
   \<not> dict_has (PStr ''abc123'') ''$oid'' \<and>
   convert_oid (PStr ''abc123'') = Inr (PStr ''abc123'')"
proof -
  have h: "map_of [(''$oid'', PInt 5), (''n'', PNone)] ''$oid'' = Some (PInt 5)"
    by simp
  have n: "\<not> dict_has (PStr ''abc123'') ''$oid''"
    by (simp add: dict_has_def)
  have s: "oid_shaped (PDict [(''$oid'', PStr ''abc123'')])"
    by (simp add: oid_shaped_def)
  show ?thesis
    using h n s
      convert_oid_cases [of "[(''$oid'', PInt 5), (''n'', PNone)]" "PInt 5" "''abc123''" "PStr ''abc123''"]
    by simp
qed

text \<open>
  The second half of C1 as written fails: \<^verbatim>\<open>{"$oid": 5}\<close> is not of the shape (its
  payload is no string), and it is not returned unchanged.
\<close>

theorem convert_oid_identity_counterexample:
  "\<not> oid_shaped (PDict [(''$oid'', PInt 5)]) \<and>
   convert_oid (PDict [(''$oid'', PInt 5)]) \<noteq> Inr (PDict [(''$oid'', PInt 5)])"
  by (simp add: oid_shaped_def convert_oid_def dict_has_def getitem_def)


text \<open>
  Claim C6. A dict with \<^verbatim>\<open>$id\<close> and \<^verbatim>\<open>$ref\<close> becomes the pair of the identifier and
  the collection, stored under the keys \<^verbatim>\<open>cpg_id\<close> and \<^verbatim>\<open>cpg_ref\<close>: the identifier
  is \<open>S\<close> when \<^verbatim>\<open>$id\<close> is \<^verbatim>\<open>{"$oid": S}\<close>, and \<^verbatim>\<open>$id\<close> itself when it is a bare
  string. A value that does not contain both keys is returned unchanged.
\<close>

theorem convert_cpg_cases:
  "(map_of d ''$id'' = Some (PDict i) \<and> map_of i ''$oid'' = Some S \<and> map_of d ''$ref'' = Some R
      \<longrightarrow> convert_cpg (PDict d) = Inr (PDict [(''cpg_id'', S), (''cpg_ref'', R)])) \<and>
   (map_of d ''$id'' = Some (PStr S') \<and> map_of d ''$ref'' = Some R
      \<longrightarrow> convert_cpg (PDict d) = Inr (PDict [(''cpg_id'', PStr S'), (''cpg_ref'', R)])) \<and>
   (\<not> (dict_has v ''$id'' \<and> dict_has v ''$ref'') \<longrightarrow> convert_cpg v = Inr v)"
  by (auto simp: convert_cpg_def dict_has_def getitem_def dict_get_def)

theorem convert_cpg_cases_witness:
  "map_of [(''$id'', PDict [(''$oid'', PStr ''601ac114'')]), (''$ref'', PStr ''Cogs'')] ''$id''
     = Some (PDict [(''$oid'', PStr ''601ac114'')]) \<and>
   convert_cpg (PDict [(''$id'', PDict [(''$oid'', PStr ''601ac114'')]), (''$ref'', PStr ''Cogs'')])
     = Inr (PDict [(''cpg_id'', PStr ''601ac114''), (''cpg_ref'', PStr ''Cogs'')]) \<and>
   \<not> (dict_has (PDict [(''$id'', PStr ''601ac114'')]) ''$id'' \<and>
      dict_has (PDict [(''$id'', PStr ''601ac114'')]) ''$ref'') \<and>
   convert_cpg (PDict [(''$id'', PStr ''601ac114'')]) = Inr (PDict [(''$id'', PStr ''601ac114'')])"
proof -
  have a: "map_of [(''$id'', PDict [(''$oid'', PStr ''601ac114'')]), (''$ref'', PStr ''Cogs'')] ''$id''
     = Some (PDict [(''$oid'', PStr ''601ac114'')])"
    by simp
  have b: "map_of [(''$oid'', PStr ''601ac114'')] ''$oid'' = Some (PStr ''601ac114'')"
    by simp
  have c: "map_of [(''$id'', PDict [(''$oid'', PStr ''601ac114'')]), (''$ref'', PStr ''Cogs'')] ''$ref''
     = Some (PStr ''Cogs'')"
    by simp
  have n: "\<not> (dict_has (PDict [(''$id'', PStr ''601ac114'')]) ''$id'' \<and>
      dict_has (PDict [(''$id'', PStr ''601ac114'')]) ''$ref'')"
    by (simp add: dict_has_def)
  show ?thesis
    using a b c n
      convert_cpg_cases [of "[(''$id'', PDict [(''$oid'', PStr ''601ac114'')]), (''$ref'', PStr ''Cogs'')]"
        "[(''$oid'', PStr ''601ac114'')]" "PStr ''601ac114''" "PStr ''Cogs''" "''x''"
        "PDict [(''$id'', PStr ''601ac114'')]"]
    by simp
qed









section \<open>The normalization pass on a frame\<close>

lemma series_apply_length: "series_apply f vs = Inr ws \<Longrightarrow> length ws = length vs"
  by (induction vs arbitrary: ws) (auto split: sum.splits)

lemma map_of_replace:
  "map_of (map (\<lambda>(k, old). if k = col then (k, vs) else (k, old)) xs) c =
     (if c = col then (if col \<in> fst ` set xs then Some vs else None) else map_of xs c)"
  by (induction xs) (auto split: if_splits)

lemma map_fst_replace:
  "map fst (map (\<lambda>(k, old). if k = col then (k, vs) else (k, old)) xs) = map fst xs"
  by (induction xs) auto

lemma df_getitem_Inr_iff: "(\<exists>vs. df_getitem df c = Inr vs) = (c \<in> set (df_columns df))"
proof (cases "map_of (cols df) c")
  case None
  then have "c \<notin> fst ` set (cols df)"
    by (simp add: map_of_eq_None_iff)
  with None show ?thesis
    by (simp add: df_getitem_def df_columns_def)
next
  case (Some vs)
  then have "c \<in> fst ` set (cols df)"
    by (metis map_of_eq_None_iff option.distinct(1))
  with Some show ?thesis
    by (simp add: df_getitem_def df_columns_def)
qed

lemma df_getitem_same_columns:
  "df_columns df' = df_columns df \<Longrightarrow> df_getitem df c = Inr vs \<Longrightarrow> \<exists>us. df_getitem df' c = Inr us"
  using df_getitem_Inr_iff [of df c] df_getitem_Inr_iff [of df' c] by auto

lemma frame_kept_refl: "frame_kept S df df"
  by (auto simp: frame_kept_def)

lemma frame_kept_mono: "frame_kept S df df' \<Longrightarrow> S \<subseteq> T \<Longrightarrow> frame_kept T df df'"
  by (auto simp: frame_kept_def)

lemma frame_kept_trans:
  assumes a: "frame_kept S df df1" and b: "frame_kept S df1 df2"
  shows "frame_kept S df df2"
proof -
  have cols: "df_columns df1 = df_columns df" "df_columns df2 = df_columns df1"
    using a b by (simp_all add: frame_kept_def)
  have len: "length ws = length vs" if g: "df_getitem df c = Inr vs" and g2: "df_getitem df2 c = Inr ws" for c vs ws
  proof -
    have "\<exists>us. df_getitem df1 c = Inr us"
      using cols(1) g by (rule df_getitem_same_columns)
    then obtain us where us: "df_getitem df1 c = Inr us" by blast
    have "length us = length vs" using a g us by (auto simp: frame_kept_def)
    moreover have "length ws = length us" using b g2 us by (auto simp: frame_kept_def)
    ultimately show ?thesis by simp
  qed
  show ?thesis
    unfolding frame_kept_def
  proof (intro conjI allI impI)
    show "df_columns df2 = df_columns df" using cols by simp
    show "nrows df2 = nrows df" using a b by (simp add: frame_kept_def)
    show "df_getitem df2 c = df_getitem df c" if "c \<notin> S" for c
      using a b that by (simp add: frame_kept_def)
    show "length ws = length vs" if "df_getitem df c = Inr vs \<and> df_getitem df2 c = Inr ws" for c vs ws
      using len that by blast
  qed
qed

lemma apply_column_kept:
  assumes "apply_column f col df = (e, df')"
  shows "frame_kept {col} df df'"
proof (cases "df_getitem df col")
  case (Inl err)
  then show ?thesis using assms by (auto simp: apply_column_def frame_kept_refl)
next
  case (Inr vs)
  note g = this
  show ?thesis
  proof (cases "series_apply f vs")
    case (Inl err)
    then show ?thesis using assms g by (auto simp: apply_column_def frame_kept_refl)
  next
    case (Inr ws)
    have mem: "col \<in> set (df_columns df)"
      using g df_getitem_Inr_iff [of df col] by blast
    have df': "df' = df_setitem df col ws"
      using assms g Inr by (simp add: apply_column_def)
    have len: "length ws = length vs" using Inr by (rule series_apply_length)
    have mem': "col \<in> fst ` set (cols df)" using mem by (simp add: df_columns_def)
    show ?thesis
      using mem mem' g len
      by (auto simp: df' frame_kept_def df_setitem_def df_columns_def df_getitem_def
          map_of_replace map_fst_replace split: option.splits if_splits)
  qed
qed

lemma convert_columns_kept:
  "convert_columns f cs df = (e, df') \<Longrightarrow> frame_kept (set cs) df df'"
proof (induction cs arbitrary: df)
  case Nil
  then show ?case by (simp add: frame_kept_refl)
next
  case (Cons c cs)
  show ?case
  proof (cases "c \<in> set (df_columns df)")
    case False
    then have "convert_columns f cs df = (e, df')" using Cons.prems by simp
    then have "frame_kept (set cs) df df'" by (rule Cons.IH)
    then show ?thesis by (rule frame_kept_mono) auto
  next
    case True
    obtain e1 df1 where step: "apply_column f c df = (e1, df1)" by (cases "apply_column f c df")
    have k1: "frame_kept (set (c # cs)) df df1"
      using apply_column_kept [OF step] by (rule frame_kept_mono) simp
    show ?thesis
    proof (cases e1)
      case (Some err)
      then have "df' = df1" using Cons.prems True step by simp
      then show ?thesis using k1 by simp
    next
      case None
      then have "convert_columns f cs df1 = (e, df')" using Cons.prems True step by simp
      then have "frame_kept (set cs) df1 df'" by (rule Cons.IH)
      then have "frame_kept (set (c # cs)) df1 df'" by (rule frame_kept_mono) auto
      with k1 show ?thesis by (rule frame_kept_trans)
    qed
  qed
qed

lemma apply_conversions_abc_kept:
  assumes "apply_conversions_abc off df = (e, df')"
  shows "frame_kept converted_names df df'"
proof -
  obtain e1 df1 where s1: "convert_columns convert_oid oid_columns df = (e1, df1)"
    by (cases "convert_columns convert_oid oid_columns df")
  obtain e2 df2 where s2: "convert_columns (convert_date off) date_columns df1 = (e2, df2)"
    by (cases "convert_columns (convert_date off) date_columns df1")
  obtain e3 df3 where s3: "apply_column convert_cpg ''cpg'' df2 = (e3, df3)"
    by (cases "apply_column convert_cpg ''cpg'' df2")
  have k1: "frame_kept converted_names df df1"
    using convert_columns_kept [OF s1] by (rule frame_kept_mono) (auto simp: converted_names_def)
  have k2: "frame_kept converted_names df1 df2"
    using convert_columns_kept [OF s2] by (rule frame_kept_mono) (auto simp: converted_names_def)
  have k3: "frame_kept converted_names df2 df3"
    using apply_column_kept [OF s3] by (rule frame_kept_mono) (auto simp: converted_names_def)
  have k12: "frame_kept converted_names df df2" using k1 k2 by (rule frame_kept_trans)
  have k123: "frame_kept converted_names df df3" using k12 k3 by (rule frame_kept_trans)
  have "df' = df1 \<or> df' = df2 \<or> df' = df3"
    using assms s1 s2 s3
    by (auto simp: apply_conversions_abc_def split: option.splits if_splits)
  then show ?thesis using k1 k12 k123 by auto
qed

lemma apply_conversions_gzip_kept:
  assumes "apply_conversions_gzip off df = (e, df')"
  shows "frame_kept converted_names df df'"
proof -
  obtain e1 df1 where s1: "convert_columns convert_oid oid_columns df = (e1, df1)"
    by (cases "convert_columns convert_oid oid_columns df")
  obtain e2 df2 where s2: "convert_columns (convert_date off) date_columns df1 = (e2, df2)"
    by (cases "convert_columns (convert_date off) date_columns df1")
  have k1: "frame_kept converted_names df df1"
    using convert_columns_kept [OF s1] by (rule frame_kept_mono) (auto simp: converted_names_def)
  have k2: "frame_kept converted_names df1 df2"
    using convert_columns_kept [OF s2] by (rule frame_kept_mono) (auto simp: converted_names_def)
  have k12: "frame_kept converted_names df df2" using k1 k2 by (rule frame_kept_trans)
  have "df' = df1 \<or> df' = df2"
    using assms s1 s2
    by (auto simp: apply_conversions_gzip_def split: option.splits if_splits)
  then show ?thesis using k1 k12 by auto
qed

lemma pass_rel_refl: "pass_rel f S df df"
  by (simp add: pass_rel_def frame_kept_refl)

lemma pass_rel_mono: "pass_rel f S df df' \<Longrightarrow> S \<subseteq> T \<Longrightarrow> pass_rel f T df df'"
  by (auto simp: pass_rel_def intro: frame_kept_mono)

lemma series_apply_list_all2:
  "series_apply f vs = Inr ws \<Longrightarrow> list_all2 (\<lambda>v w. f v = Inr w) vs ws"
  by (induction vs arbitrary: ws) (auto split: sum.splits)

lemma apply_column_pass:
  assumes "apply_column f col df = (e, df')"
  shows "pass_rel f {col} df df'"
proof -
  have k: "frame_kept {col} df df'" using assms by (rule apply_column_kept)
  have "df_getitem df' c = df_getitem df c \<or>
        (\<exists>vs ws. df_getitem df c = Inr vs \<and> df_getitem df' c = Inr ws \<and> series_apply f vs = Inr ws)"
    for c
  proof (cases "c = col")
    case False
    then show ?thesis using k by (simp add: frame_kept_def)
  next
    case True
    show ?thesis
    proof (cases "df_getitem df col")
      case (Inl err)
      then show ?thesis using assms by (auto simp: apply_column_def)
    next
      case (Inr vs)
      note g = this
      show ?thesis
      proof (cases "series_apply f vs")
        case (Inl err)
        then show ?thesis using assms g by (auto simp: apply_column_def)
      next
        case (Inr ws)
        have mem: "col \<in> fst ` set (cols df)"
          using g df_getitem_Inr_iff [of df col] by (auto simp: df_columns_def)
        have df': "df' = df_setitem df col ws"
          using assms g Inr by (simp add: apply_column_def)
        have "df_getitem df' col = Inr ws"
          using mem by (simp add: df' df_setitem_def df_getitem_def df_columns_def map_of_replace)
        then show ?thesis using True g Inr by blast
      qed
    qed
  qed
  then show ?thesis using k by (simp add: pass_rel_def)
qed

lemma convert_columns_pass:
  "distinct cs \<Longrightarrow> convert_columns f cs df = (e, df') \<Longrightarrow> pass_rel f (set cs) df df'"
proof (induction cs arbitrary: df)
  case Nil
  then show ?case by (simp add: pass_rel_refl)
next
  case (Cons c0 cs)
  have d: "distinct cs" and n: "c0 \<notin> set cs" using Cons.prems(1) by simp_all
  show ?case
  proof (cases "c0 \<in> set (df_columns df)")
    case False
    then have "convert_columns f cs df = (e, df')" using Cons.prems(2) by simp
    then have "pass_rel f (set cs) df df'" using d Cons.IH by blast
    then show ?thesis by (rule pass_rel_mono) auto
  next
    case True
    obtain e1 df1 where step: "apply_column f c0 df = (e1, df1)" by (cases "apply_column f c0 df")
    have p1: "pass_rel f {c0} df df1" using step by (rule apply_column_pass)
    show ?thesis
    proof (cases e1)
      case (Some err)
      then have "df' = df1" using Cons.prems(2) True step by simp
      then show ?thesis using p1 by (auto intro: pass_rel_mono)
    next
      case None
      then have rest: "convert_columns f cs df1 = (e, df')" using Cons.prems(2) True step by simp
      have p2: "pass_rel f (set cs) df1 df'" using d rest Cons.IH by blast
      have k: "frame_kept (set (c0 # cs)) df df'"
        using Cons.prems(2) by (rule convert_columns_kept)
      have "df_getitem df' c = df_getitem df c \<or>
            (\<exists>vs ws. df_getitem df c = Inr vs \<and> df_getitem df' c = Inr ws \<and> series_apply f vs = Inr ws)"
        for c
      proof (cases "c = c0")
        case True
        have eq: "df_getitem df' c0 = df_getitem df1 c0"
          using p2 n by (simp add: pass_rel_def frame_kept_def)
        have "df_getitem df1 c0 = df_getitem df c0 \<or>
            (\<exists>vs ws. df_getitem df c0 = Inr vs \<and> df_getitem df1 c0 = Inr ws \<and> series_apply f vs = Inr ws)"
          using p1 by (simp add: pass_rel_def)
        then show ?thesis unfolding True eq .
      next
        case False
        have eq: "df_getitem df1 c = df_getitem df c"
          using p1 False by (simp add: pass_rel_def frame_kept_def)
        have "df_getitem df' c = df_getitem df1 c \<or>
            (\<exists>vs ws. df_getitem df1 c = Inr vs \<and> df_getitem df' c = Inr ws \<and> series_apply f vs = Inr ws)"
          using p2 by (simp add: pass_rel_def)
        then show ?thesis unfolding eq .
      qed
      then show ?thesis using k by (simp add: pass_rel_def)
    qed
  qed
qed

lemma pass_cells:
  assumes "pass_rel f S df df'" "df_getitem df c = Inr vs" "df_getitem df' c = Inr ws"
  shows "list_all2 (\<lambda>v w. w = v \<or> f v = Inr w) vs ws"
proof -
  have "df_getitem df' c = df_getitem df c \<or>
        (\<exists>vs ws. df_getitem df c = Inr vs \<and> df_getitem df' c = Inr ws \<and> series_apply f vs = Inr ws)"
    using assms(1) by (simp add: pass_rel_def)
  then show ?thesis
  proof
    assume "df_getitem df' c = df_getitem df c"
    then have "ws = vs" using assms by simp
    then show ?thesis by (simp add: list_all2_same)
  next
    assume "\<exists>vs ws. df_getitem df c = Inr vs \<and> df_getitem df' c = Inr ws \<and> series_apply f vs = Inr ws"
    then have "series_apply f vs = Inr ws" using assms by auto
    then have "list_all2 (\<lambda>v w. f v = Inr w) vs ws" by (rule series_apply_list_all2)
    then show ?thesis by (rule list_all2_mono) simp
  qed
qed

lemma three_passes_cells:
  assumes p1: "pass_rel convert_oid (set oid_columns) df df1"
    and p2: "pass_rel (convert_date off) (set date_columns) df1 df2"
    and p3: "pass_rel convert_cpg {''cpg''} df2 df3"
    and g: "df_getitem df c = Inr vs" and g3: "df_getitem df3 c = Inr ws"
  shows "list_all2 (cell_converted off) vs ws"
proof -
  have disj: "set oid_columns \<inter> set date_columns = {}" "''cpg'' \<notin> set oid_columns"
    "''cpg'' \<notin> set date_columns"
    by (simp_all add: oid_columns_def date_columns_def)
  have k1: "frame_kept (set oid_columns) df df1" using p1 by (simp add: pass_rel_def)
  have k2: "frame_kept (set date_columns) df1 df2" using p2 by (simp add: pass_rel_def)
  have k3: "frame_kept {''cpg''} df2 df3" using p3 by (simp add: pass_rel_def)
  have conv: "list_all2 (cell_converted off) xs ys"
    if "list_all2 (\<lambda>v w. w = v \<or> f v = Inr w) xs ys"
      "f = convert_oid \<or> f = convert_date off \<or> f = convert_cpg" for f xs ys
    using that(1) by (rule list_all2_mono) (use that(2) in \<open>auto simp: cell_converted_def\<close>)
  consider (oid) "c \<in> set oid_columns" | (date) "c \<in> set date_columns" | (cpg) "c = ''cpg''"
    | (none) "c \<notin> set oid_columns" "c \<notin> set date_columns" "c \<noteq> ''cpg''"
    by blast
  then show ?thesis
  proof cases
    case oid
    then have "c \<notin> set date_columns" "c \<noteq> ''cpg''" using disj by auto
    then have "df_getitem df3 c = df_getitem df1 c"
      using k2 k3 by (simp add: frame_kept_def)
    then have "df_getitem df1 c = Inr ws" using g3 by simp
    then have "list_all2 (\<lambda>v w. w = v \<or> convert_oid v = Inr w) vs ws"
      using p1 g by (rule_tac pass_cells) auto
    then show ?thesis by (rule conv) simp
  next
    case date
    then have n: "c \<notin> set oid_columns" "c \<noteq> ''cpg''" using disj by auto
    have a: "df_getitem df1 c = Inr vs" using k1 n g by (simp add: frame_kept_def)
    have b: "df_getitem df2 c = Inr ws" using k3 n g3 by (simp add: frame_kept_def)
    have "list_all2 (\<lambda>v w. w = v \<or> convert_date off v = Inr w) vs ws"
      using p2 a b by (rule pass_cells)
    then show ?thesis by (rule conv) simp
  next
    case cpg
    then have n: "c \<notin> set oid_columns" "c \<notin> set date_columns" using disj by auto
    have a: "df_getitem df2 c = Inr vs" using k1 k2 n g by (simp add: frame_kept_def)
    have "list_all2 (\<lambda>v w. w = v \<or> convert_cpg v = Inr w) vs ws"
      using p3 a g3 by (rule pass_cells)
    then show ?thesis by (rule conv) simp
  next
    case none
    then have "df_getitem df3 c = df_getitem df c"
      using k1 k2 k3 by (simp add: frame_kept_def)
    then have "ws = vs" using g g3 by simp
    then show ?thesis by (simp add: list_all2_same cell_converted_def)
  qed
qed

lemma distinct_column_lists: "distinct oid_columns" "distinct date_columns"
  by (simp_all add: oid_columns_def date_columns_def)

lemma apply_conversions_abc_cells:
  assumes "apply_conversions_abc off df = (e, df')" "df_getitem df c = Inr vs" "df_getitem df' c = Inr ws"
  shows "list_all2 (cell_converted off) vs ws"
proof -
  obtain e1 df1 where s1: "convert_columns convert_oid oid_columns df = (e1, df1)"
    by (cases "convert_columns convert_oid oid_columns df")
  obtain e2 df2 where s2: "convert_columns (convert_date off) date_columns df1 = (e2, df2)"
    by (cases "convert_columns (convert_date off) date_columns df1")
  obtain e3 df3 where s3: "apply_column convert_cpg ''cpg'' df2 = (e3, df3)"
    by (cases "apply_column convert_cpg ''cpg'' df2")
  have p1: "pass_rel convert_oid (set oid_columns) df df1"
    using distinct_column_lists(1) s1 by (rule convert_columns_pass)
  have p2: "pass_rel (convert_date off) (set date_columns) df1 df2"
    using distinct_column_lists(2) s2 by (rule convert_columns_pass)
  have p3: "pass_rel convert_cpg {''cpg''} df2 df3"
    using s3 by (rule apply_column_pass)
  have "df' = df1 \<or> df' = df2 \<or> df' = df3"
    using assms(1) s1 s2 s3
    by (auto simp: apply_conversions_abc_def split: option.splits if_splits)
  then consider "df' = df1" | "df' = df2" | "df' = df3" by blast
  then show ?thesis
  proof cases
    case 1
    show ?thesis
      using p1 pass_rel_refl pass_rel_refl assms(2) assms(3) [unfolded 1]
      by (rule three_passes_cells)
  next
    case 2
    show ?thesis
      using p1 p2 pass_rel_refl assms(2) assms(3) [unfolded 2]
      by (rule three_passes_cells)
  next
    case 3
    show ?thesis
      using p1 p2 p3 assms(2) assms(3) [unfolded 3]
      by (rule three_passes_cells)
  qed
qed

lemma apply_conversions_gzip_cells:
  assumes "apply_conversions_gzip off df = (e, df')" "df_getitem df c = Inr vs" "df_getitem df' c = Inr ws"
  shows "list_all2 (cell_converted off) vs ws"
proof -
  obtain e1 df1 where s1: "convert_columns convert_oid oid_columns df = (e1, df1)"
    by (cases "convert_columns convert_oid oid_columns df")
  obtain e2 df2 where s2: "convert_columns (convert_date off) date_columns df1 = (e2, df2)"
    by (cases "convert_columns (convert_date off) date_columns df1")
  have p1: "pass_rel convert_oid (set oid_columns) df df1"
    using distinct_column_lists(1) s1 by (rule convert_columns_pass)
  have p2: "pass_rel (convert_date off) (set date_columns) df1 df2"
    using distinct_column_lists(2) s2 by (rule convert_columns_pass)
  have "df' = df1 \<or> df' = df2"
    using assms(1) s1 s2
    by (auto simp: apply_conversions_gzip_def split: option.splits if_splits)
  then consider "df' = df1" | "df' = df2" by blast
  then show ?thesis
  proof cases
    case 1
    show ?thesis
      using p1 pass_rel_refl pass_rel_refl assms(2) assms(3) [unfolded 1]
      by (rule three_passes_cells)
  next
    case 2
    show ?thesis
      using p1 p2 pass_rel_refl assms(2) assms(3) [unfolded 2]
      by (rule three_passes_cells)
  qed
qed

text \<open>
  Claim C10. Whatever \<^verbatim>\<open>apply_conversions\<close> of either script leaves behind, also
  when a conversion raised: the column names and their order are the same, the number of
  rows is the same, every column other than \<^verbatim>\<open>_id\<close>, \<^verbatim>\<open>userId\<close>, \<^verbatim>\<open>brand_id\<close>, the
  seven date columns and \<^verbatim>\<open>cpg\<close> has the values it had, and every column has the
  length it had, each of its cells being the cell that was at that row or its conversion.
\<close>

theorem apply_conversions_frame:
  "(apply_conversions_abc off df = (e, df') \<or> apply_conversions_gzip off df = (e, df')) \<longrightarrow>
     df_columns df' = df_columns df \<and>
     nrows df' = nrows df \<and>
     (\<forall>c. c \<notin> set oid_columns \<union> set date_columns \<union> {''cpg''} \<longrightarrow>
          df_getitem df' c = df_getitem df c) \<and>
     (\<forall>c vs ws. df_getitem df c = Inr vs \<and> df_getitem df' c = Inr ws \<longrightarrow>
          length ws = length vs \<and> list_all2 (cell_converted off) vs ws)"
proof
  assume a: "apply_conversions_abc off df = (e, df') \<or> apply_conversions_gzip off df = (e, df')"
  then have "frame_kept converted_names df df'"
    using apply_conversions_abc_kept apply_conversions_gzip_kept by blast
  then have k: "df_columns df' = df_columns df" "nrows df' = nrows df"
    "\<forall>c. c \<notin> set oid_columns \<union> set date_columns \<union> {''cpg''} \<longrightarrow>
          df_getitem df' c = df_getitem df c"
    "\<forall>c vs ws. df_getitem df c = Inr vs \<and> df_getitem df' c = Inr ws \<longrightarrow> length ws = length vs"
    unfolding frame_kept_def converted_names_def by blast+
  have cells: "list_all2 (cell_converted off) vs ws"
    if "df_getitem df c = Inr vs" "df_getitem df' c = Inr ws" for c vs ws
    using a that apply_conversions_abc_cells apply_conversions_gzip_cells by blast
  show "df_columns df' = df_columns df \<and>
     nrows df' = nrows df \<and>
     (\<forall>c. c \<notin> set oid_columns \<union> set date_columns \<union> {''cpg''} \<longrightarrow>
          df_getitem df' c = df_getitem df c) \<and>
     (\<forall>c vs ws. df_getitem df c = Inr vs \<and> df_getitem df' c = Inr ws \<longrightarrow>
          length ws = length vs \<and> list_all2 (cell_converted off) vs ws)"
    using k cells by blast
qed

theorem apply_conversions_frame_witness:
  "apply_conversions_abc 0
      \<lparr>nrows = 1, cols = [(''_id'', [PDict [(''$oid'', PStr ''abc123'')]]), (''name'', [PStr ''n'']),
                           (''cpg'', [PDict [(''$id'', PStr ''i''), (''$ref'', PStr ''Cogs'')]])]\<rparr>
     = (None,
        \<lparr>nrows = 1, cols = [(''_id'', [PStr ''abc123'']), (''name'', [PStr ''n'']),
                           (''cpg'', [PDict [(''cpg_id'', PStr ''i''), (''cpg_ref'', PStr ''Cogs'')]])]\<rparr>) \<and>
   ''name'' \<notin> set oid_columns \<union> set date_columns \<union> {''cpg''} \<and>
   df_getitem \<lparr>nrows = 1, cols = [(''_id'', [PStr ''abc123'']), (''name'', [PStr ''n'']),
                           (''cpg'', [PDict [(''cpg_id'', PStr ''i''), (''cpg_ref'', PStr ''Cogs'')]])]\<rparr> ''name''
     = df_getitem \<lparr>nrows = 1, cols = [(''_id'', [PDict [(''$oid'', PStr ''abc123'')]]), (''name'', [PStr ''n'']),
                           (''cpg'', [PDict [(''$id'', PStr ''i''), (''$ref'', PStr ''Cogs'')]])]\<rparr> ''name''"
proof -
  have a: "apply_conversions_abc 0
      \<lparr>nrows = 1, cols = [(''_id'', [PDict [(''$oid'', PStr ''abc123'')]]), (''name'', [PStr ''n'']),
                           (''cpg'', [PDict [(''$id'', PStr ''i''), (''$ref'', PStr ''Cogs'')]])]\<rparr>
     = (None,
        \<lparr>nrows = 1, cols = [(''_id'', [PStr ''abc123'']), (''name'', [PStr ''n'']),
                           (''cpg'', [PDict [(''cpg_id'', PStr ''i''), (''cpg_ref'', PStr ''Cogs'')]])]\<rparr>)"
    by (simp add: apply_conversions_abc_def oid_columns_def date_columns_def df_columns_def
        apply_column_def df_getitem_def df_setitem_def convert_oid_def convert_cpg_def
        dict_has_def getitem_def dict_get_def)
  have n: "''name'' \<notin> set oid_columns \<union> set date_columns \<union> {''cpg''}"
    by (simp add: oid_columns_def date_columns_def)
  from a have a': "apply_conversions_abc 0
      \<lparr>nrows = 1, cols = [(''_id'', [PDict [(''$oid'', PStr ''abc123'')]]), (''name'', [PStr ''n'']),
                           (''cpg'', [PDict [(''$id'', PStr ''i''), (''$ref'', PStr ''Cogs'')]])]\<rparr>
     = (None,
        \<lparr>nrows = 1, cols = [(''_id'', [PStr ''abc123'']), (''name'', [PStr ''n'']),
                           (''cpg'', [PDict [(''cpg_id'', PStr ''i''), (''cpg_ref'', PStr ''Cogs'')]])]\<rparr>) \<or>
     apply_conversions_gzip 0
      \<lparr>nrows = 1, cols = [(''_id'', [PDict [(''$oid'', PStr ''abc123'')]]), (''name'', [PStr ''n'']),
                           (''cpg'', [PDict [(''$id'', PStr ''i''), (''$ref'', PStr ''Cogs'')]])]\<rparr>
     = (None,
        \<lparr>nrows = 1, cols = [(''_id'', [PStr ''abc123'']), (''name'', [PStr ''n'']),
                           (''cpg'', [PDict [(''cpg_id'', PStr ''i''), (''cpg_ref'', PStr ''Cogs'')]])]\<rparr>)"
    by (rule disjI1)
  show ?thesis
    using a n apply_conversions_frame [THEN mp, OF a'] by blast
qed






section \<open>Extraction of a column\<close>





section \<open>The base-name token\<close>

lemma length_str_split: "length (str_split sep s) = Suc (length (filter (\<lambda>c. c = sep) s))"
  by (induction s) (auto split: list.splits)

lemma str_split_not_Nil: "str_split sep s \<noteq> []"
  using length_str_split [of sep s] by auto

lemma str_split_no_sep: "sep \<notin> set s \<Longrightarrow> str_split sep s = [s]"
  by (induction s) auto

lemma last_str_split_append:
  "last (str_split sep (dir @ sep # seg)) = last (str_split sep seg)"
proof (induction dir)
  case Nil
  then show ?case by (simp add: str_split_not_Nil)
next
  case (Cons c dir)
  show ?case
  proof (cases "c = sep")
    case True
    then show ?thesis using Cons.IH by (simp add: str_split_not_Nil)
  next
    case False
    obtain w ws where sp: "str_split sep (dir @ sep # seg) = w # ws"
      using str_split_not_Nil [of sep "dir @ sep # seg"] by (cases "str_split sep (dir @ sep # seg)") auto
    have "length (str_split sep (dir @ sep # seg)) \<ge> 2"
      by (simp add: length_str_split)
    then have "ws \<noteq> []" using sp by auto
    then show ?thesis using False sp Cons.IH by simp
  qed
qed

lemma base_name_last_segment:
  "CHR ''/'' \<notin> set seg \<Longrightarrow> base_name (dir @ ''/'' @ seg) = str_replace ''.gz'' [] seg"
  by (simp add: base_name_def last_str_split_append str_split_no_sep)

lemma str_replace_gz_inner:
  "CHR ''.'' \<notin> set a \<Longrightarrow> str_replace ''.gz'' new (a @ ''.gz'' @ b) = a @ new @ str_replace ''.gz'' new b"
  by (induction a) auto

lemma base_name_users: "base_name ''data/input_data/users.json.gz'' = ''users.json''"
  by (simp add: base_name_def)

lemma base_name_dot_gz: "base_name ''data/.gz'' = []"
  by (simp add: base_name_def)

section \<open>The fallback of the loader\<close>

lemma parse_lines_skip:
  "prefix bn line \<Longrightarrow>
   parse_lines loads bn (pre @ line # post) data = parse_lines loads bn (pre @ post) data"
  by (induction pre arbitrary: data) (auto split: sum.splits)

lemma parse_lines_parsed_objects:
  "\<forall>line\<in>set ls. kept_line bn line \<longrightarrow> (\<forall>e. loads line = Inl e \<longrightarrow> e = JSONDecodeError) \<Longrightarrow>
   parse_lines loads bn ls data = Inr (data @ parsed_objects loads bn ls)"
proof (induction ls arbitrary: data)
  case Nil
  then show ?case by (simp add: parsed_objects_def)
next
  case (Cons line ls)
  have rest: "\<forall>l\<in>set ls. kept_line bn l \<longrightarrow> (\<forall>e. loads l = Inl e \<longrightarrow> e = JSONDecodeError)"
    using Cons.prems by simp
  have po: "parsed_objects loads bn (line # ls) =
      (if kept_line bn line then (case loads line of Inr obj \<Rightarrow> [obj] | Inl e \<Rightarrow> []) else [])
      @ parsed_objects loads bn ls"
    by (simp add: parsed_objects_def)
  show ?case
  proof (cases "kept_line bn line")
    case False
    then show ?thesis using Cons.IH [OF rest] po by (auto simp: kept_line_def)
  next
    case True
    show ?thesis
    proof (cases "loads line")
      case (Inl e)
      then have "e = JSONDecodeError" using Cons.prems True by simp
      then show ?thesis using True Inl Cons.IH [OF rest] po by (auto simp: kept_line_def)
    next
      case (Inr obj)
      then show ?thesis using True Cons.IH [OF rest, of "data @ [obj]"] po
        by (auto simp: kept_line_def)
    qed
  qed
qed

lemma parsed_objects_records:
  "\<forall>line\<in>set ls. kept_line bn line \<longrightarrow>
      (\<exists>d. loads line = Inr (PDict d)) \<or> loads line = Inl JSONDecodeError \<Longrightarrow>
   list_all is_record (parsed_objects loads bn ls)"
  by (induction ls) (auto simp: parsed_objects_def is_record_def split: sum.splits)

lemma load_abc_fallback:
  assumes "pd_read_json env path = Inl e" "is_ValueError e" "gzip_lines env path = Inr ls"
  shows "load_gzipped_json_abc env path =
           (case parse_lines (json_loads env) (base_name path) ls [] of
              Inl e' \<Rightarrow> Inl e'
            | Inr data \<Rightarrow>
                (case pd_DataFrame env data of Inl e' \<Rightarrow> Inl e' | Inr df \<Rightarrow> Inr (Frame df)))"
  using assms by (simp add: load_gzipped_json_abc_def)

lemma series_to_frame_Frame: "series_to_frame (Frame d) = Frame d"
  by (simp add: series_to_frame_def)

lemma load_gzip_fallback:
  assumes "pd_read_json env path = Inl e" "is_ValueError e" "gzip_lines env path = Inr ls"
  shows "load_gzipped_json_gzip env path =
           (case parse_lines (json_loads env) (base_name path) ls [] of
              Inl e' \<Rightarrow> Inl e'
            | Inr data \<Rightarrow>
                (case pd_DataFrame env data of Inl e' \<Rightarrow> Inl e' | Inr df \<Rightarrow> Inr (Frame df)))"
  using assms by (simp add: load_gzipped_json_gzip_def series_to_frame_Frame split: sum.splits)

lemma load_fallback_frame:
  assumes fb: "pd_read_json env path = Inl e" "is_ValueError e"
    and src: "gzip_lines env path = Inr ls"
    and ok: "\<forall>line\<in>set ls. kept_line (base_name path) line \<longrightarrow>
               (\<exists>d. json_loads env line = Inr (PDict d)) \<or> json_loads env line = Inl JSONDecodeError"
  shows "load_gzipped_json_abc env path =
           Inr (Frame (frame_of_records (parsed_objects (json_loads env) (base_name path) ls)))"
    and "load_gzipped_json_gzip env path =
           Inr (Frame (frame_of_records (parsed_objects (json_loads env) (base_name path) ls)))"
proof -
  have ok': "\<forall>line\<in>set ls. kept_line (base_name path) line \<longrightarrow>
               (\<forall>e. json_loads env line = Inl e \<longrightarrow> e = JSONDecodeError)"
    using ok by auto
  have p: "parse_lines (json_loads env) (base_name path) ls [] =
             Inr (parsed_objects (json_loads env) (base_name path) ls)"
    using parse_lines_parsed_objects [OF ok', of "[]"] by simp
  have r: "list_all is_record (parsed_objects (json_loads env) (base_name path) ls)"
    using ok by (rule parsed_objects_records)
  show "load_gzipped_json_abc env path =
           Inr (Frame (frame_of_records (parsed_objects (json_loads env) (base_name path) ls)))"
    by (simp add: load_abc_fallback [OF fb src] p pd_DataFrame_def r)
  show "load_gzipped_json_gzip env path =
           Inr (Frame (frame_of_records (parsed_objects (json_loads env) (base_name path) ls)))"
    by (simp add: load_gzip_fallback [OF fb src] p pd_DataFrame_def r)
qed

lemma pd_DataFrame_gzip_lines:
  "pd_DataFrame (env\<lparr>gzip_lines := g\<rparr>) data = pd_DataFrame env data"
  by (simp add: pd_DataFrame_def)

lemma sample_env_fields:
  "pd_read_json (sample_env ls) path = Inl ValueError"
  "gzip_lines (sample_env ls) path = Inr ls"
  "json_loads (sample_env ls) ''{}'' = Inr (PDict [])"
  "json_loads (sample_env ls) ''oops'' = Inl JSONDecodeError"
  by (simp_all add: sample_env_def)

lemma kept_line_examples:
  "kept_line ''users.json'' ''{}''"
  "kept_line ''users.json'' ''oops''"
  "\<not> kept_line [] ''{}''"
  by (simp_all add: kept_line_def str_strip_def is_space_def)

text \<open>
  Claim C4, as the code has it. When the primary parse fails with a ValueError and the
  file can be read, and every line handed to \<^verbatim>\<open>json.loads\<close> either parses to an object
  or fails with JSONDecodeError, both loaders return the table of the objects parsed from
  the lines that are not blank and do not begin with the base-name token, in the order of
  the lines, with one row for each; the other lines are dropped. For three lines such
  that the second fails to parse and the first and the third are handed to
  \<^verbatim>\<open>json.loads\<close> and parse to objects, the table has two rows. An exception of the
  primary parse that is no ValueError, and an exception of opening or decompressing the
  file, are passed on.
\<close>

theorem load_discards_unparseable_lines:
  "(pd_read_json env path = Inl e \<and> is_ValueError e \<and> gzip_lines env path = Inr ls \<and>
    (\<forall>line\<in>set ls. kept_line (base_name path) line \<longrightarrow>
        (\<exists>d. json_loads env line = Inr (PDict d)) \<or> json_loads env line = Inl JSONDecodeError)
    \<longrightarrow> load_gzipped_json_abc env path =
          Inr (Frame (frame_of_records (parsed_objects (json_loads env) (base_name path) ls))) \<and>
        load_gzipped_json_gzip env path =
          Inr (Frame (frame_of_records (parsed_objects (json_loads env) (base_name path) ls))) \<and>
        nrows (frame_of_records (parsed_objects (json_loads env) (base_name path) ls)) =
          length (parsed_objects (json_loads env) (base_name path) ls)) \<and>
   (pd_read_json env path = Inl e \<and> is_ValueError e \<and> gzip_lines env path = Inr [l1, l2, l3] \<and>
    kept_line (base_name path) l1 \<and> json_loads env l1 = Inr (PDict d1) \<and>
    json_loads env l2 = Inl JSONDecodeError \<and>
    kept_line (base_name path) l3 \<and> json_loads env l3 = Inr (PDict d3)
    \<longrightarrow> load_gzipped_json_abc env path = Inr (Frame (frame_of_records [PDict d1, PDict d3])) \<and>
        load_gzipped_json_gzip env path = Inr (Frame (frame_of_records [PDict d1, PDict d3])) \<and>
        nrows (frame_of_records [PDict d1, PDict d3]) = 2) \<and>
   (pd_read_json env path = Inl e \<and> \<not> is_ValueError e
    \<longrightarrow> load_gzipped_json_abc env path = Inl e \<and> load_gzipped_json_gzip env path = Inl e) \<and>
   (pd_read_json env path = Inl e \<and> is_ValueError e \<and> gzip_lines env path = Inl e'
    \<longrightarrow> load_gzipped_json_abc env path = Inl e' \<and> load_gzipped_json_gzip env path = Inl e')"
proof (intro conjI impI)
  assume a: "pd_read_json env path = Inl e \<and> is_ValueError e \<and> gzip_lines env path = Inr ls \<and>
    (\<forall>line\<in>set ls. kept_line (base_name path) line \<longrightarrow>
        (\<exists>d. json_loads env line = Inr (PDict d)) \<or> json_loads env line = Inl JSONDecodeError)"
  then have fb: "pd_read_json env path = Inl e" "is_ValueError e"
    and src: "gzip_lines env path = Inr ls"
    and ok: "\<forall>line\<in>set ls. kept_line (base_name path) line \<longrightarrow>
        (\<exists>d. json_loads env line = Inr (PDict d)) \<or> json_loads env line = Inl JSONDecodeError"
    by blast+
  show "load_gzipped_json_abc env path =
          Inr (Frame (frame_of_records (parsed_objects (json_loads env) (base_name path) ls)))"
    using fb src ok by (rule load_fallback_frame(1))
  show "load_gzipped_json_gzip env path =
          Inr (Frame (frame_of_records (parsed_objects (json_loads env) (base_name path) ls)))"
    using fb src ok by (rule load_fallback_frame(2))
  show "nrows (frame_of_records (parsed_objects (json_loads env) (base_name path) ls)) =
          length (parsed_objects (json_loads env) (base_name path) ls)"
    by (simp add: frame_of_records_def)
next
  assume a: "pd_read_json env path = Inl e \<and> is_ValueError e \<and> gzip_lines env path = Inr [l1, l2, l3] \<and>
    kept_line (base_name path) l1 \<and> json_loads env l1 = Inr (PDict d1) \<and>
    json_loads env l2 = Inl JSONDecodeError \<and>
    kept_line (base_name path) l3 \<and> json_loads env l3 = Inr (PDict d3)"
  then have fb: "pd_read_json env path = Inl e" "is_ValueError e"
    and src: "gzip_lines env path = Inr [l1, l2, l3]"
    by blast+
  have ok: "\<forall>line\<in>set [l1, l2, l3]. kept_line (base_name path) line \<longrightarrow>
        (\<exists>d. json_loads env line = Inr (PDict d)) \<or> json_loads env line = Inl JSONDecodeError"
    using a by auto
  have po: "parsed_objects (json_loads env) (base_name path) [l1, l2, l3] = [PDict d1, PDict d3]"
    using a by (simp add: parsed_objects_def)
  show "load_gzipped_json_abc env path = Inr (Frame (frame_of_records [PDict d1, PDict d3]))"
    using load_fallback_frame(1) [OF fb src ok] po by simp
  show "load_gzipped_json_gzip env path = Inr (Frame (frame_of_records [PDict d1, PDict d3]))"
    using load_fallback_frame(2) [OF fb src ok] po by simp
  show "nrows (frame_of_records [PDict d1, PDict d3]) = 2"
    by (simp add: frame_of_records_def)
next
  assume a: "pd_read_json env path = Inl e \<and> \<not> is_ValueError e"
  show "load_gzipped_json_abc env path = Inl e"
    using a by (simp add: load_gzipped_json_abc_def)
  show "load_gzipped_json_gzip env path = Inl e"
    using a by (simp add: load_gzipped_json_gzip_def)
next
  assume a: "pd_read_json env path = Inl e \<and> is_ValueError e \<and> gzip_lines env path = Inl e'"
  show "load_gzipped_json_abc env path = Inl e'"
    using a by (simp add: load_gzipped_json_abc_def)
  show "load_gzipped_json_gzip env path = Inl e'"
    using a by (simp add: load_gzipped_json_gzip_def)
qed

theorem load_discards_unparseable_lines_witness:
  "pd_read_json (sample_env [''{}'', ''oops'', ''{}'']) ''data/input_data/users.json.gz'' = Inl ValueError \<and>
   is_ValueError ValueError \<and>
   gzip_lines (sample_env [''{}'', ''oops'', ''{}'']) ''data/input_data/users.json.gz''
     = Inr [''{}'', ''oops'', ''{}''] \<and>
   kept_line (base_name ''data/input_data/users.json.gz'') ''{}'' \<and>
   json_loads (sample_env [''{}'', ''oops'', ''{}'']) ''{}'' = Inr (PDict []) \<and>
   json_loads (sample_env [''{}'', ''oops'', ''{}'']) ''oops'' = Inl JSONDecodeError \<and>
   load_gzipped_json_abc (sample_env [''{}'', ''oops'', ''{}'']) ''data/input_data/users.json.gz''
     = Inr (Frame \<lparr>nrows = 2, cols = []\<rparr>)"
proof -
  have k: "kept_line (base_name ''data/input_data/users.json.gz'') ''{}''"
    by (simp add: base_name_users kept_line_examples)
  have v: "is_ValueError ValueError" by (simp add: is_ValueError_def)
  have f: "frame_of_records [PDict [], PDict []] = \<lparr>nrows = 2, cols = []\<rparr>"
    by (simp add: frame_of_records_def keys_of_def)
  have h: "pd_read_json (sample_env [''{}'', ''oops'', ''{}'']) ''data/input_data/users.json.gz'' = Inl ValueError \<and>
    is_ValueError ValueError \<and>
    gzip_lines (sample_env [''{}'', ''oops'', ''{}'']) ''data/input_data/users.json.gz''
      = Inr [''{}'', ''oops'', ''{}''] \<and>
    kept_line (base_name ''data/input_data/users.json.gz'') ''{}'' \<and>
    json_loads (sample_env [''{}'', ''oops'', ''{}'']) ''{}'' = Inr (PDict []) \<and>
    json_loads (sample_env [''{}'', ''oops'', ''{}'']) ''oops'' = Inl JSONDecodeError \<and>
    kept_line (base_name ''data/input_data/users.json.gz'') ''{}'' \<and>
    json_loads (sample_env [''{}'', ''oops'', ''{}'']) ''{}'' = Inr (PDict [])"
    using k v by (simp add: sample_env_fields)
  have "load_gzipped_json_abc (sample_env [''{}'', ''oops'', ''{}'']) ''data/input_data/users.json.gz''
     = Inr (Frame (frame_of_records [PDict [], PDict []]))"
    using load_discards_unparseable_lines
      [of "sample_env [''{}'', ''oops'', ''{}'']" "''data/input_data/users.json.gz''" ValueError
          "[]" "''{}''" "''oops''" "''{}''" "[]" "[]" OSError]
      h
    by blast
  then show ?thesis using h f by simp
qed

text \<open>
  C4 as written fails where a line that parses begins with the base-name token: for the
  path \<^verbatim>\<open>data/.gz\<close> the token is empty, every line begins with it, and a file of three
  lines of which the first and third parse to objects gives a table with no rows.
\<close>

theorem load_loses_parseable_lines_counterexample:
  "json_loads (sample_env [''{}'', ''oops'', ''{}'']) ''{}'' = Inr (PDict []) \<and>
   json_loads (sample_env [''{}'', ''oops'', ''{}'']) ''oops'' = Inl JSONDecodeError \<and>
   load_gzipped_json_abc (sample_env [''{}'', ''oops'', ''{}'']) ''data/.gz''
     = Inr (Frame \<lparr>nrows = 0, cols = []\<rparr>) \<and>
   load_gzipped_json_gzip (sample_env [''{}'', ''oops'', ''{}'']) ''data/.gz''
     = Inr (Frame \<lparr>nrows = 0, cols = []\<rparr>)"
  by (simp add: sample_env_fields load_gzipped_json_abc_def load_gzipped_json_gzip_def
      is_ValueError_def base_name_dot_gz pd_DataFrame_def frame_of_records_def
      series_to_frame_Frame)



lemma load_skips_token_line:
  assumes "pd_read_json env path = Inl e" "is_ValueError e" "prefix (base_name path) line"
  shows "load_gzipped_json_abc (env\<lparr>gzip_lines := (\<lambda>p. Inr (pre @ line # post))\<rparr>) path
           = load_gzipped_json_abc (env\<lparr>gzip_lines := (\<lambda>p. Inr (pre @ post))\<rparr>) path"
    and "load_gzipped_json_gzip (env\<lparr>gzip_lines := (\<lambda>p. Inr (pre @ line # post))\<rparr>) path
           = load_gzipped_json_gzip (env\<lparr>gzip_lines := (\<lambda>p. Inr (pre @ post))\<rparr>) path"
  using assms
  by (simp_all add: load_gzipped_json_abc_def load_gzipped_json_gzip_def pd_DataFrame_gzip_lines
      parse_lines_skip split: sum.splits)

text \<open>
  Claim C9. The token is computed from the last segment of the path, and an occurrence of
  \<^verbatim>\<open>.gz\<close> inside the segment is removed like the one at its end
  (\<^verbatim>\<open>a.gz.b.gz\<close> gives \<^verbatim>\<open>a.b\<close>). A line that begins with the token is never handed
  to \<^verbatim>\<open>json.loads\<close>, whatever \<^verbatim>\<open>json.loads\<close> would return for it: the loop, and both
  loaders on the fallback path, give what they give for the file without that line.
\<close>

theorem base_name_token_drops_lines:
  "(CHR ''/'' \<notin> set seg \<longrightarrow> base_name (dir @ ''/'' @ seg) = str_replace ''.gz'' [] seg) \<and>
   (CHR ''.'' \<notin> set a \<longrightarrow> str_replace ''.gz'' [] (a @ ''.gz'' @ b) = a @ str_replace ''.gz'' [] b) \<and>
   base_name ''data/a.gz.b.gz'' = ''a.b'' \<and>
   (prefix (base_name path) line \<longrightarrow>
      parse_lines loads (base_name path) (pre @ line # post) data
        = parse_lines loads (base_name path) (pre @ post) data) \<and>
   (pd_read_json env path = Inl e \<and> is_ValueError e \<and> prefix (base_name path) line \<longrightarrow>
      load_gzipped_json_abc (env\<lparr>gzip_lines := (\<lambda>p. Inr (pre @ line # post))\<rparr>) path
        = load_gzipped_json_abc (env\<lparr>gzip_lines := (\<lambda>p. Inr (pre @ post))\<rparr>) path \<and>
      load_gzipped_json_gzip (env\<lparr>gzip_lines := (\<lambda>p. Inr (pre @ line # post))\<rparr>) path
        = load_gzipped_json_gzip (env\<lparr>gzip_lines := (\<lambda>p. Inr (pre @ post))\<rparr>) path)"
proof (intro conjI impI)
  show "base_name (dir @ ''/'' @ seg) = str_replace ''.gz'' [] seg" if "CHR ''/'' \<notin> set seg"
    using that by (rule base_name_last_segment)
  show "str_replace ''.gz'' [] (a @ ''.gz'' @ b) = a @ str_replace ''.gz'' [] b" if "CHR ''.'' \<notin> set a"
    using str_replace_gz_inner [OF that, of "[]" b] by simp
  show "base_name ''data/a.gz.b.gz'' = ''a.b''"
    by (simp add: base_name_def)
  show "parse_lines loads (base_name path) (pre @ line # post) data
        = parse_lines loads (base_name path) (pre @ post) data" if "prefix (base_name path) line"
    using that by (rule parse_lines_skip)
next
  assume a: "pd_read_json env path = Inl e \<and> is_ValueError e \<and> prefix (base_name path) line"
  then have h: "pd_read_json env path = Inl e" "is_ValueError e" "prefix (base_name path) line"
    by blast+
  show "load_gzipped_json_abc (env\<lparr>gzip_lines := (\<lambda>p. Inr (pre @ line # post))\<rparr>) path
        = load_gzipped_json_abc (env\<lparr>gzip_lines := (\<lambda>p. Inr (pre @ post))\<rparr>) path"
    using h by (rule load_skips_token_line(1))
  show "load_gzipped_json_gzip (env\<lparr>gzip_lines := (\<lambda>p. Inr (pre @ line # post))\<rparr>) path
        = load_gzipped_json_gzip (env\<lparr>gzip_lines := (\<lambda>p. Inr (pre @ post))\<rparr>) path"
    using h by (rule load_skips_token_line(2))
qed

theorem base_name_token_drops_lines_witness:
  "CHR ''/'' \<notin> set ''{.gz'' \<and>
   base_name (''data'' @ ''/'' @ ''{.gz'') = ''{'' \<and>
   CHR ''.'' \<notin> set ''a'' \<and>
   str_replace ''.gz'' [] (''a'' @ ''.gz'' @ ''.b.gz'') = ''a.b'' \<and>
   pd_read_json (sample_env []) ''data/{.gz'' = Inl ValueError \<and>
   is_ValueError ValueError \<and>
   prefix (base_name ''data/{.gz'') ''{}'' \<and>
   str_strip ''{}'' \<noteq> [] \<and>
   json_loads (sample_env []) ''{}'' = Inr (PDict []) \<and>
   load_gzipped_json_abc ((sample_env [])\<lparr>gzip_lines := (\<lambda>p. Inr ([] @ ''{}'' # []))\<rparr>) ''data/{.gz''
     = Inr (Frame \<lparr>nrows = 0, cols = []\<rparr>)"
proof -
  have s: "CHR ''/'' \<notin> set ''{.gz''" "CHR ''.'' \<notin> set ''a''"
    by simp_all
  have bn: "base_name ''data/{.gz'' = ''{''"
    by (simp add: base_name_def)
  have h: "pd_read_json (sample_env []) ''data/{.gz'' = Inl ValueError \<and>
           is_ValueError ValueError \<and> prefix (base_name ''data/{.gz'') ''{}''"
    by (simp add: sample_env_fields is_ValueError_def bn)
  have st: "str_strip ''{}'' \<noteq> []"
    by (simp add: str_strip_def is_space_def)
  have r: "str_replace ''.gz'' [] ''.b.gz'' = ''.b''"
    by simp
  have e: "load_gzipped_json_abc ((sample_env [])\<lparr>gzip_lines := (\<lambda>p. Inr ([] @ []))\<rparr>) ''data/{.gz''
             = Inr (Frame \<lparr>nrows = 0, cols = []\<rparr>)"
    by (simp add: sample_env_def load_gzipped_json_abc_def is_ValueError_def pd_DataFrame_def
        frame_of_records_def)
  show ?thesis
    using s bn h st r e
      base_name_token_drops_lines
        [of "''{.gz''" "''data''" "''a''" "''.b.gz''" "''data/{.gz''" "''{}''" "json_loads (sample_env [])"
            "[]" "[]" "[]" "sample_env []" ValueError]
    by (simp add: sample_env_fields)
qed

section \<open>A single record from the primary parse\<close>

text \<open>
  The loader of \<^verbatim>\<open>import gzip.py\<close> never returns a Series, and turns a Series that the
  primary parse hands back into a table with one row.
\<close>

lemma load_gzip_never_series: "load_gzipped_json_gzip env path \<noteq> Inr (Series s)"
  by (auto simp: load_gzipped_json_gzip_def series_to_frame_def
      split: sum.splits pandas_obj.splits if_splits)

lemma load_gzip_wraps_series:
  "pd_read_json env path = Inr (Series s) \<Longrightarrow>
   load_gzipped_json_gzip env path = Inr (Frame (frame_of_series s)) \<and> nrows (frame_of_series s) = 1"
  by (simp add: load_gzipped_json_gzip_def series_to_frame_def frame_of_series_def)


end
